theory Spec2Isabelle
  imports Main "HOL-Library.Word" "HOL-Library.Sublist" "HOL-Library.Char_ord"
    "HOL-Library.List_Lexorder"
begin

section \<open>IceUtil::SimpleShared (include/IceUtil/Shared.h)\<close>

text \<open>
  The non thread-safe reference-counting base. The counter is a C++ \<open>int\<close>, modelled as a
  32-bit word read in two's complement (\<open>sint\<close>); \<open>++\<close> and \<open>--\<close> are the machine
  increment and decrement, which wrap around. Each \<open>assert\<close> is a branch of the model.
  \<open>delete this\<close> ends the object's life: \<open>decRef\<close> returns \<open>None\<close> for a deleted object
  and the updated object otherwise. The fields \<open>_ref\<close> and \<open>_noDelete\<close> and the member
  functions \<open>__incRef\<close>, \<open>__decRef\<close>, \<open>__getRef\<close>, \<open>__setNoDelete\<close> lose their leading
  underscores, which an Isabelle name cannot start with.
\<close>

datatype assertion = AssertionFailed

record SimpleShared =
  ref :: "32 word"
  noDelete :: bool

definition SimpleShared_ctor :: SimpleShared where
  "SimpleShared_ctor = \<lparr>ref = 0, noDelete = False\<rparr>"

definition incRef :: "SimpleShared \<Rightarrow> assertion + SimpleShared" where
  "incRef s =
     (if \<not> (0 \<le> sint (ref s)) then Inl AssertionFailed
      else Inr (s\<lparr>ref := ref s + 1\<rparr>))"

definition decRef :: "SimpleShared \<Rightarrow> assertion + SimpleShared option" where
  "decRef s =
     (if \<not> (0 < sint (ref s)) then Inl AssertionFailed
      else let s' = s\<lparr>ref := ref s - 1\<rparr> in
        if ref s' = 0 then (if \<not> noDelete s' then Inr None else Inr (Some s'))
        else Inr (Some s'))"

definition getRef :: "SimpleShared \<Rightarrow> int" where
  "getRef s = sint (ref s)"

definition setNoDelete :: "bool \<Rightarrow> SimpleShared \<Rightarrow> SimpleShared" where
  "setNoDelete b s = s\<lparr>noDelete := b\<rparr>"

text \<open>\<open>__incRef\<close> followed by \<open>__decRef\<close> on the same object.\<close>

definition incRef_then_decRef :: "SimpleShared \<Rightarrow> assertion + SimpleShared option" where
  "incRef_then_decRef s = (case incRef s of Inl a \<Rightarrow> Inl a | Inr s' \<Rightarrow> decRef s')"

definition INT_MAX :: int where
  "INT_MAX = 2 ^ 31 - 1"

section \<open>Strings and containers of the C++ standard library\<close>

text \<open>
  \<open>std::string\<close> is a \<open>string\<close> (a list of bytes); a position is a \<open>nat\<close> and
  \<open>string::npos\<close> is \<open>None\<close>. \<open>operator<\<close> on \<open>std::string\<close> compares bytes
  lexicographically, which is the order of \<open>HOL-Library.List_Lexorder\<close> over
  \<open>HOL-Library.Char_ord\<close>.
\<close>

fun first_index :: "('a \<Rightarrow> bool) \<Rightarrow> 'a list \<Rightarrow> nat option" where
  "first_index P [] = None"
| "first_index P (x # xs) = (if P x then Some 0 else map_option Suc (first_index P xs))"

text \<open>\<open>s.find_first_of(cs, pos)\<close> and \<open>s.find_first_not_of(cs, pos)\<close>.\<close>

definition find_first_of :: "string \<Rightarrow> string \<Rightarrow> nat \<Rightarrow> nat option" where
  "find_first_of s cs pos = map_option (\<lambda>i. pos + i) (first_index (\<lambda>c. c \<in> set cs) (drop pos s))"

definition find_first_not_of :: "string \<Rightarrow> string \<Rightarrow> nat \<Rightarrow> nat option" where
  "find_first_not_of s cs pos = map_option (\<lambda>i. pos + i) (first_index (\<lambda>c. c \<notin> set cs) (drop pos s))"

text \<open>
  \<open>s.substr(pos)\<close> and \<open>s.substr(pos, n)\<close>; every call in the source has
  \<open>pos \<le> s.size()\<close>, where \<open>substr\<close> does not throw.
\<close>

definition substr_from :: "string \<Rightarrow> nat \<Rightarrow> string" where
  "substr_from s pos = drop pos s"

definition substr :: "string \<Rightarrow> nat \<Rightarrow> nat \<Rightarrow> string" where
  "substr s pos n = take n (drop pos s)"

text \<open>\<open>s.find(p)\<close>: the position of the first occurrence of \<open>p\<close> in \<open>s\<close>.\<close>

fun find_str :: "string \<Rightarrow> string \<Rightarrow> nat option" where
  "find_str [] p = (if p = [] then Some 0 else None)"
| "find_str (c # s) p = (if prefix p (c # s) then Some 0 else map_option Suc (find_str s p))"

text \<open>
  \<open>std::map<std::string, T>\<close> is the list of its entries in iteration order, which is
  ascending key order; \<open>map_wf\<close> is the representation invariant. \<open>map_assign\<close> is
  \<open>m[k] = v\<close>, \<open>map_find\<close> is \<open>m.find(k)\<close> (\<open>None\<close> for \<open>m.end()\<close>),
  \<open>map_erase\<close> is \<open>m.erase(it)\<close> for the iterator at key \<open>k\<close>. An iterator is the key of
  the entry it points at, or \<open>None\<close> for \<open>m.end()\<close>: \<open>map_begin\<close> is \<open>m.begin()\<close>
  and \<open>map_next\<close> is \<open>++it\<close>, the entry with the least key above the current one.
\<close>

type_synonym 'v std_map = "(string \<times> 'v) list"

definition map_wf :: "'v std_map \<Rightarrow> bool" where
  "map_wf m = sorted_wrt (<) (map fst m)"

fun map_assign :: "string \<Rightarrow> 'v \<Rightarrow> 'v std_map \<Rightarrow> 'v std_map" where
  "map_assign k v [] = [(k, v)]"
| "map_assign k v ((k', v') # m) =
     (if k < k' then (k, v) # (k', v') # m
      else if k = k' then (k, v) # m
      else (k', v') # map_assign k v m)"

fun map_find :: "string \<Rightarrow> 'v std_map \<Rightarrow> 'v option" where
  "map_find k [] = None"
| "map_find k ((k', v') # m) = (if k = k' then Some v' else map_find k m)"

fun map_erase :: "string \<Rightarrow> 'v std_map \<Rightarrow> 'v std_map" where
  "map_erase k [] = []"
| "map_erase k ((k', v') # m) = (if k = k' then m else (k', v') # map_erase k m)"

definition map_begin :: "'v std_map \<Rightarrow> string option" where
  "map_begin m = (case m of [] \<Rightarrow> None | (k, v) # m' \<Rightarrow> Some k)"

fun map_next :: "string \<Rightarrow> 'v std_map \<Rightarrow> string option" where
  "map_next k [] = None"
| "map_next k ((k', v') # m) = (if k < k' then Some k' else map_next k m)"

section \<open>IceBox::ServiceManagerI (src/IceBox/ServiceManagerI.cpp)\<close>

subsection \<open>Separating the entry point from the arguments (run, lines 85-110)\<close>

definition ws :: string where
  "ws = [CHR '' '', CHR 0x09, CHR 0x0A]"

function parse_args :: "string \<Rightarrow> nat option \<Rightarrow> string list \<Rightarrow> string list" where
  "parse_args val beg args =
     (case beg of
        None \<Rightarrow> args
      | Some b \<Rightarrow>
          (case find_first_of val ws b of
             None \<Rightarrow> parse_args val None (args @ [substr_from val b])
           | Some e \<Rightarrow>
               parse_args val (find_first_not_of val ws e) (args @ [substr val b (e - b)])))"
  by pat_completeness auto

lemma first_index_Some: "first_index P xs = Some i \<Longrightarrow> i < length xs \<and> P (xs ! i)"
  by (induction xs arbitrary: i) (auto split: if_splits)

termination parse_args
proof (relation "measure (\<lambda>(val, beg, args). case beg of None \<Rightarrow> 0 | Some b \<Rightarrow> Suc (length val - b))")
  show "wf (measure (\<lambda>(val, beg, args). case beg of None \<Rightarrow> 0 | Some b \<Rightarrow> Suc (length val - b)))"
    by simp
next
  fix val :: string and beg :: "nat option" and args :: "string list" and b
  assume "beg = Some b" "find_first_of val ws b = None"
  then show "((val, None, args @ [substr_from val b]), val, beg, args)
    \<in> measure (\<lambda>(val, beg, args). case beg of None \<Rightarrow> 0 | Some b \<Rightarrow> Suc (length val - b))"
    by simp
next
  fix val :: string and beg :: "nat option" and args :: "string list" and b e
  assume beg: "beg = Some b" and e: "find_first_of val ws b = Some e"
  from e obtain i where i: "e = b + i" "i < length val - b" "val ! (b + i) \<in> set ws"
    by (auto simp: find_first_of_def dest!: first_index_Some)
  show "((val, find_first_not_of val ws e, args @ [substr val b (e - b)]), val, beg, args)
    \<in> measure (\<lambda>(val, beg, args). case beg of None \<Rightarrow> 0 | Some b \<Rightarrow> Suc (length val - b))"
  proof (cases "find_first_not_of val ws e")
    case None
    with beg show ?thesis by simp
  next
    case (Some b')
    then obtain j where j: "b' = e + j" "j < length val - e" "val ! (e + j) \<notin> set ws"
      by (auto simp: find_first_not_of_def dest!: first_index_Some)
    have "j \<noteq> 0"
    proof
      assume "j = 0"
      with i j show False by simp
    qed
    with i j beg Some show ?thesis by simp
  qed
qed

declare parse_args.simps [simp del]

text \<open>
  The descriptor \<open>(entryPoint, args)\<close> that \<open>run\<close> computes from the value of one
  \<open>IceBox.Service.<name>\<close> property.
\<close>

definition parse_service :: "string \<Rightarrow> string \<times> string list" where
  "parse_service val =
     (case find_first_of val ws 0 of
        None \<Rightarrow> (val, [])
      | Some pos \<Rightarrow> (substr val 0 pos, parse_args val (find_first_not_of val ws pos) []))"

text \<open>
  The tokenization the specification describes, for comparison: the maximal runs of
  characters other than space, tab and newline, in order.
\<close>

definition is_ws :: "char \<Rightarrow> bool" where
  "is_ws c = (c = CHR '' '' \<or> c = CHR 0x09 \<or> c = CHR 0x0A)"

fun spec_tokens_acc :: "string \<Rightarrow> string \<Rightarrow> string list" where
  "spec_tokens_acc cur [] = (if cur = [] then [] else [cur])"
| "spec_tokens_acc cur (c # cs) =
     (if is_ws c then (if cur = [] then spec_tokens_acc [] cs else cur # spec_tokens_acc [] cs)
      else spec_tokens_acc (cur @ [c]) cs)"

definition spec_tokens :: "string \<Rightarrow> string list" where
  "spec_tokens s = spec_tokens_acc [] s"

definition spec_parse_service :: "string \<Rightarrow> (string \<times> string list) option" where
  "spec_parse_service val =
     (case spec_tokens val of [] \<Rightarrow> None | entryPoint # args \<Rightarrow> Some (entryPoint, args))"

subsection \<open>Exceptions, services and the container runtime\<close>

text \<open>
  What a call can throw: an \<open>Ice::Exception\<close>, which is either an
  \<open>IceBox::FailureException\<close> carrying its \<open>reason\<close> or any other Ice exception, given by
  its \<open>ice_name()\<close> and by the text \<open>operator<<\<close> prints for it; or something that is
  not an \<open>Ice::Exception\<close>, which only \<open>catch(...)\<close> catches. A failed \<open>assert\<close> aborts the
  process and is caught by nothing. Reading a string that has been destroyed is undefined
  behaviour: the model stops there with \<open>Undefined\<close> and says nothing of what follows.
\<close>

datatype ice_exception = FailureException string | OtherException string string

datatype exn = Ice ice_exception | NonIce

datatype abrupt = Throw exn | Abort | Undefined

text \<open>
  \<open>ice_name()\<close> of an \<open>IceBox::FailureException\<close> is the name of its Slice type; the
  generated class is not among the sources.
\<close>

fun ice_name :: "ice_exception \<Rightarrow> string" where
  "ice_name (FailureException reason) = ''IceBox::FailureException''"
| "ice_name (OtherException name printed) = name"

type_synonym Properties = "(string \<times> string) list"

text \<open>
  A service instance is given by what its three operations do when called: return
  (\<open>None\<close>) or throw. \<open>init\<close> sees the service name, the property set and the arguments.
\<close>

record Service =
  on_init :: "string \<Rightarrow> Properties \<Rightarrow> string list \<Rightarrow> exn option"
  on_start :: "exn option"
  on_stop :: "exn option"

record ServiceInfo =
  service :: Service
  library :: string

text \<open>
  The collaborators of the Service Manager, none of which is among the sources, are
  parameters: \<open>getPropertiesForPrefix\<close> (the entries of the \<open>PropertyDict\<close> it returns, in
  the order in which the loop of \<open>run\<close> iterates over them) and \<open>getProperty\<close> of the
  communicator's property set, the options it recognized on the command line,
  \<open>createProperties\<close> and \<open>parseCommandLineOptions\<close> (the updated property set and the
  remaining arguments), the dynamic library loader (\<open>None\<close> for a null symbol, otherwise
  what calling the factory does) with its error message, and the outcomes of the object
  adapter calls and of \<open>waitForShutdown\<close> (\<open>None\<close> when the call returns). The property
  and loader functions are taken to return.
\<close>

record Runtime =
  getPropertiesForPrefix :: "string \<Rightarrow> (string \<times> string) list"
  getProperty :: "string \<Rightarrow> string"
  commandLineOptions :: "string list"
  createProperties :: "string list \<Rightarrow> Properties"
  parseCommandLineOptions :: "Properties \<Rightarrow> string \<Rightarrow> string list \<Rightarrow> Properties \<times> string list"
  loadEntryPoint :: "string \<Rightarrow> (exn + Service) option"
  getErrorMessage :: "string \<Rightarrow> string"
  createObjectAdapterFromProperty :: "exn option"
  adapter_add :: "exn option"
  adapter_activate :: "exn option"
  waitForShutdown :: "exn option"

subsection \<open>The Service Manager\<close>

text \<open>
  What the manager does to the outside is recorded in order: the calls to factories and
  services, the messages put on the logger's error stream (\<open>Error out(_logger); out << ...\<close>,
  recorded where the statement stands) and the lines put on standard output, and the two
  calls that bracket request dispatching.
\<close>

datatype event =
    FactoryCall string
  | InitCall string Properties "string list"
  | StartCall string
  | StopCall string
  | LogError string
  | Stdout string
  | AdapterActivate
  | WaitForShutdown

record ServiceManagerI =
  m_progName :: string
  m_argv :: "string list"
  m_options :: "string list"
  m_services :: "ServiceInfo std_map"
  events :: "event list"

definition emit :: "event \<Rightarrow> ServiceManagerI \<Rightarrow> ServiceManagerI" where
  "emit e m = m\<lparr>events := events m @ [e]\<rparr>"

text \<open>The constructor, from the runtime and \<open>argv\<close> (\<open>argc\<close> is its length).\<close>

definition ServiceManagerI_ctor :: "Runtime \<Rightarrow> string list \<Rightarrow> ServiceManagerI" where
  "ServiceManagerI_ctor rt argv =
     \<lparr>m_progName = (case argv of [] \<Rightarrow> [] | a # rest \<Rightarrow> a),
      m_argv = drop 1 argv,
      m_options = commandLineOptions rt,
      m_services = [],
      events = []\<rparr>"

definition EXIT_SUCCESS :: int where
  "EXIT_SUCCESS = 0"

definition EXIT_FAILURE :: int where
  "EXIT_FAILURE = 1"

subsection \<open>init\<close>

text \<open>
  The three loops that compose \<open>serviceArgs\<close> (lines 200-219): the recognized options
  that begin with \<open>--<service>.\<close>, the arguments of the descriptor, and the container
  arguments that begin with \<open>--<service>.\<close>, each pushed at the back.
\<close>

definition push_matching :: "string \<Rightarrow> string list \<Rightarrow> string list \<Rightarrow> string list" where
  "push_matching name xs serviceArgs =
     fold (\<lambda>x acc. if find_str x (''--'' @ name @ ''.'') = Some 0 then acc @ [x] else acc)
       xs serviceArgs"

definition compose_serviceArgs :: "ServiceManagerI \<Rightarrow> string \<Rightarrow> string list \<Rightarrow> string list" where
  "compose_serviceArgs m name args =
     push_matching name (m_argv m)
       (fold (\<lambda>a acc. acc @ [a]) args
         (push_matching name (m_options m) []))"

definition load_failure :: "string \<Rightarrow> string \<Rightarrow> string" where
  "load_failure entryPoint msg =
     (let reason = ''ServiceManager: unable to load entry point '' @ [CHR 0x60] @ entryPoint @ [CHR 0x27]
      in if msg \<noteq> [] then reason @ '': '' @ msg else reason)"

definition factory_failure :: "string \<Rightarrow> string \<Rightarrow> string" where
  "factory_failure entryPoint name =
     ''ServiceManager: exception in entry point '' @ [CHR 0x60] @ entryPoint @ [CHR 0x27] @ '': '' @ name"

definition factory_unknown_failure :: "string \<Rightarrow> string" where
  "factory_unknown_failure entryPoint =
     ''ServiceManager: unknown exception in entry point '' @ [CHR 0x60] @ entryPoint @ [CHR 0x27]"

definition init_failure :: "string \<Rightarrow> string \<Rightarrow> string" where
  "init_failure name exc = ''ServiceManager: exception while initializing service '' @ name @ '': '' @ exc"

definition start_failure :: "string \<Rightarrow> string \<Rightarrow> string" where
  "start_failure name exc = ''ServiceManager: exception in start for service '' @ name @ '': '' @ exc"

definition stop_failure :: "string \<Rightarrow> string \<Rightarrow> string" where
  "stop_failure name exc = ''ServiceManager: exception in stop for service '' @ name @ '': '' @ exc"

text \<open>
  Lines 200-226: the composed arguments, the fresh property set made from them, and the
  two calls of \<open>parseCommandLineOptions\<close>, for \<open>Ice\<close> and then for the service; the
  result is the property set and the argument list that \<open>init\<close> hands to the service.
\<close>

definition service_configuration ::
  "Runtime \<Rightarrow> ServiceManagerI \<Rightarrow> string \<Rightarrow> string list \<Rightarrow> Properties \<times> string list" where
  "service_configuration rt m name args =
     (let serviceArgs = compose_serviceArgs m name args;
          serviceProperties = createProperties rt serviceArgs;
          (serviceProperties, serviceArgs) = parseCommandLineOptions rt serviceProperties ''Ice'' serviceArgs
      in parseCommandLineOptions rt serviceProperties name serviceArgs)"

definition init ::
  "Runtime \<Rightarrow> string \<Rightarrow> string \<Rightarrow> string list \<Rightarrow> ServiceManagerI
     \<Rightarrow> (abrupt + Service) \<times> ServiceManagerI" where
  "init rt name entryPoint args m =
     (let (serviceProperties, serviceArgs) = service_configuration rt m name args
      in case loadEntryPoint rt entryPoint of
           None \<Rightarrow>
             (Inl (Throw (Ice (FailureException (load_failure entryPoint (getErrorMessage rt entryPoint))))), m)
         | Some factory \<Rightarrow>
             (let m1 = emit (FactoryCall entryPoint) m in
              case factory of
                Inl (Ice ex) \<Rightarrow>
                  (Inl (Throw (Ice (FailureException (factory_failure entryPoint (ice_name ex))))), m1)
              | Inl NonIce \<Rightarrow>
                  (Inl (Throw (Ice (FailureException (factory_unknown_failure entryPoint)))), m1)
              | Inr svc \<Rightarrow>
                  (let m2 = emit (InitCall name serviceProperties serviceArgs) m1 in
                   case on_init svc name serviceProperties serviceArgs of
                     None \<Rightarrow>
                       (Inr svc,
                        m2\<lparr>m_services :=
                             map_assign name \<lparr>service = svc, library = entryPoint\<rparr> (m_services m2)\<rparr>)
                   | Some (Ice (FailureException reason)) \<Rightarrow>
                       (Inl (Throw (Ice (FailureException reason))), m2)
                   | Some (Ice (OtherException exc printed)) \<Rightarrow>
                       (Inl (Throw (Ice (FailureException (init_failure name exc)))), m2)
                   | Some NonIce \<Rightarrow> (Inl (Throw NonIce), m2))))"

subsection \<open>stop and stopAll\<close>

text \<open>
  The parameter of \<open>stop\<close> is a \<open>const string&\<close>. What matters is what the caller binds
  it to: a string that lives through the call (\<open>Own\<close>), or the key held in the entry of
  \<open>_services\<close> for that name (\<open>KeyInMap\<close>), which is destroyed with the entry.
\<close>

datatype string_ref = Own string | KeyInMap string

fun ref_value :: "string_ref \<Rightarrow> string" where
  "ref_value (Own name) = name"
| "ref_value (KeyInMap name) = name"

text \<open>
  \<open>stop\<close> in its two parts: lines 293-296 read the name, find the record, which the
  \<open>assert\<close> requires to be there, copy it and erase it from the map; lines 298-319 then
  call the stop of the service, and the handler reads the name again to build the reason
  (line 311). When the name is the key of the erased entry, that read is of a destroyed
  string. Setting the two handles of the copy to null has no effect on the manager.
\<close>

definition stop_erase :: "string \<Rightarrow> ServiceManagerI \<Rightarrow> abrupt + ServiceInfo \<times> ServiceManagerI" where
  "stop_erase name m =
     (case map_find name (m_services m) of
        None \<Rightarrow> Inl Abort
      | Some info \<Rightarrow> Inr (info, m\<lparr>m_services := map_erase name (m_services m)\<rparr>))"

definition stop_call ::
  "string_ref \<Rightarrow> ServiceInfo \<Rightarrow> ServiceManagerI \<Rightarrow> (abrupt + unit) \<times> ServiceManagerI" where
  "stop_call name_ref info m =
     (let m1 = emit (StopCall (ref_value name_ref)) m in
      case on_stop (service info) of
        None \<Rightarrow> (Inr (), m1)
      | Some (Ice ex) \<Rightarrow>
          (case name_ref of
             Own name \<Rightarrow> (Inl (Throw (Ice (FailureException (stop_failure name (ice_name ex))))), m1)
           | KeyInMap name \<Rightarrow> (Inl Undefined, m1))
      | Some NonIce \<Rightarrow> (Inl (Throw NonIce), m1))"

definition stop :: "string_ref \<Rightarrow> ServiceManagerI \<Rightarrow> (abrupt + unit) \<times> ServiceManagerI" where
  "stop name_ref m =
     (case stop_erase (ref_value name_ref) m of
        Inl a \<Rightarrow> (Inl a, m)
      | Inr (info, m1) \<Rightarrow> stop_call name_ref info m1)"

text \<open>
  The loop of \<open>stopAll\<close>: \<open>r\<close> is the iterator, \<open>(*r++).first\<close> is the key inside the
  entry, to which the parameter of \<open>stop\<close> is bound (line 330), and the iterator moves to
  the next entry before \<open>stop\<close> erases the current one.
\<close>

function stopAll_loop ::
  "string option \<Rightarrow> ServiceManagerI \<Rightarrow> (abrupt + unit) \<times> ServiceManagerI" where
  "stopAll_loop r m =
     (case r of
        None \<Rightarrow> (Inr (), m)
      | Some k \<Rightarrow>
          (let r' = map_next k (m_services m) in
           case stop (KeyInMap k) m of
             (Inr u, m') \<Rightarrow> stopAll_loop r' m'
           | (Inl (Throw (Ice (FailureException reason))), m') \<Rightarrow>
               stopAll_loop r' (emit (LogError reason) m')
           | (Inl a, m') \<Rightarrow> (Inl a, m')))"
  by pat_completeness auto

lemma map_erase_length: "map_find k xs = Some v \<Longrightarrow> length (map_erase k xs) < length xs"
  by (induction xs) (auto split: if_splits)

lemma stop_services:
  "stop r m = (res, m') \<Longrightarrow> res \<noteq> Inl Abort \<Longrightarrow>
     (\<exists>info. map_find (ref_value r) (m_services m) = Some info)
     \<and> m_services m' = map_erase (ref_value r) (m_services m)"
  by (auto simp: stop_def stop_erase_def stop_call_def emit_def Let_def
      split: option.splits sum.splits exn.splits string_ref.splits)

lemma stop_shrinks:
  assumes "(res, m') = stop r m" and "res \<noteq> Inl Abort"
  shows "length (m_services m') < length (m_services m)"
  using stop_services [of r m res m'] assms map_erase_length [of "ref_value r" "m_services m"]
  by auto

termination stopAll_loop
proof (relation "measure (\<lambda>(r, m). case r of None \<Rightarrow> 0 | Some k \<Rightarrow> Suc (length (m_services m)))")
  show "wf (measure (\<lambda>(r, m). case r of None \<Rightarrow> 0 | Some k \<Rightarrow> Suc (length (m_services m))))"
    by simp
next
  fix r :: "string option" and m k r' res m' a e ie reason
  assume r: "r = Some k" and s: "(res, m') = stop (KeyInMap k) m"
    and res: "res = Inl a" "a = Throw e" "e = Ice ie" "ie = FailureException reason"
  from res have "res \<noteq> Inl Abort" by simp
  from stop_shrinks [OF s this] r
  show "((r', emit (LogError reason) m'), r, m)
    \<in> measure (\<lambda>(r, m). case r of None \<Rightarrow> 0 | Some k \<Rightarrow> Suc (length (m_services m)))"
    by (simp add: emit_def split: option.splits)
next
  fix r :: "string option" and m k r' res m' u
  assume r: "r = Some k" and s: "(res, m') = stop (KeyInMap k) m" and res: "res = Inr u"
  from res have "res \<noteq> Inl Abort" by simp
  from stop_shrinks [OF s this] r
  show "((r', m'), r, m)
    \<in> measure (\<lambda>(r, m). case r of None \<Rightarrow> 0 | Some k \<Rightarrow> Suc (length (m_services m)))"
    by (simp split: option.splits)
qed

declare stopAll_loop.simps [simp del]

definition stopAll :: "ServiceManagerI \<Rightarrow> (abrupt + unit) \<times> ServiceManagerI" where
  "stopAll m =
     (case stopAll_loop (map_begin (m_services m)) m of
        (Inl a, m') \<Rightarrow> (Inl a, m')
      | (Inr u, m') \<Rightarrow> (if m_services m' = [] then (Inr (), m') else (Inl Abort, m')))"

subsection \<open>run\<close>

text \<open>
  The first loop of \<open>run\<close> (lines 77-113), over the entries of the \<open>PropertyDict\<close> in
  iteration order: the name is the key without the prefix (for a key shorter than the
  prefix \<open>substr\<close> throws \<open>std::out_of_range\<close>, which is not an Ice exception), the value
  is separated into entry point and arguments, and \<open>init\<close> is called; an exception ends
  the loop.
\<close>

definition service_prefix :: string where
  "service_prefix = ''IceBox.Service.''"

fun init_services ::
  "Runtime \<Rightarrow> (string \<times> string) list \<Rightarrow> ServiceManagerI
     \<Rightarrow> (abrupt + unit) \<times> ServiceManagerI" where
  "init_services rt [] m = (Inr (), m)"
| "init_services rt ((key, val) # rest) m =
     (if length key < length service_prefix then (Inl (Throw NonIce), m)
      else
        (let name = substr_from key (length service_prefix);
             (entryPoint, args) = parse_service val
         in case init rt name entryPoint args m of
              (Inl a, m') \<Rightarrow> (Inl a, m')
            | (Inr svc, m') \<Rightarrow> init_services rt rest m'))"

text \<open>
  The second loop of \<open>run\<close> (lines 118-135), which the specification calls \<open>startAll\<close>: a
  constant iterator walks the entries of \<open>_services\<close>, which \<open>start\<close> does not change.
\<close>

fun startAll ::
  "ServiceInfo std_map \<Rightarrow> ServiceManagerI \<Rightarrow> (abrupt + unit) \<times> ServiceManagerI" where
  "startAll [] m = (Inr (), m)"
| "startAll ((name, info) # rest) m =
     (let m1 = emit (StartCall name) m in
      case on_start (service info) of
        None \<Rightarrow> startAll rest m1
      | Some (Ice (FailureException reason)) \<Rightarrow> (Inl (Throw (Ice (FailureException reason))), m1)
      | Some (Ice (OtherException exc printed)) \<Rightarrow>
          (Inl (Throw (Ice (FailureException (start_failure name exc)))), m1)
      | Some NonIce \<Rightarrow> (Inl (Throw NonIce), m1))"

text \<open>The body of the \<open>try\<close> block of \<open>run\<close> (lines 55-165).\<close>

definition run_try :: "Runtime \<Rightarrow> ServiceManagerI \<Rightarrow> (abrupt + unit) \<times> ServiceManagerI" where
  "run_try rt m =
     (case createObjectAdapterFromProperty rt of
        Some ex \<Rightarrow> (Inl (Throw ex), m)
      | None \<Rightarrow>
     (case adapter_add rt of
        Some ex \<Rightarrow> (Inl (Throw ex), m)
      | None \<Rightarrow>
     (case init_services rt (getPropertiesForPrefix rt service_prefix) m of
        (Inl a, m1) \<Rightarrow> (Inl a, m1)
      | (Inr u, m1) \<Rightarrow>
     (case startAll (m_services m1) m1 of
        (Inl a, m2) \<Rightarrow> (Inl a, m2)
      | (Inr u, m2) \<Rightarrow>
     (let bundleName = getProperty rt ''IceBox.PrintServicesReady'';
          m3 = (if bundleName \<noteq> [] then emit (Stdout (bundleName @ '' ready'' @ [CHR 0x0A])) m2 else m2);
          m4 = emit AdapterActivate m3
      in case adapter_activate rt of
           Some ex \<Rightarrow> (Inl (Throw ex), m4)
         | None \<Rightarrow>
        (let m5 = emit WaitForShutdown m4
         in case waitForShutdown rt of
              Some ex \<Rightarrow> (Inl (Throw ex), m5)
            | None \<Rightarrow> stopAll m5))))))"

text \<open>
  \<open>run\<close>: the two handlers log and call \<open>stopAll\<close>; what is not an \<open>Ice::Exception\<close>
  leaves \<open>run\<close>, and so does what \<open>stopAll\<close> throws inside a handler.
\<close>

definition run_catch :: "string \<Rightarrow> ServiceManagerI \<Rightarrow> (abrupt + int) \<times> ServiceManagerI" where
  "run_catch msg m =
     (case stopAll (emit (LogError msg) m) of
        (Inl a, m') \<Rightarrow> (Inl a, m')
      | (Inr u, m') \<Rightarrow> (Inr EXIT_FAILURE, m'))"

definition run :: "Runtime \<Rightarrow> ServiceManagerI \<Rightarrow> (abrupt + int) \<times> ServiceManagerI" where
  "run rt m =
     (case run_try rt m of
        (Inr u, m') \<Rightarrow> (Inr EXIT_SUCCESS, m')
      | (Inl (Throw (Ice (FailureException reason))), m') \<Rightarrow> run_catch reason m'
      | (Inl (Throw (Ice (OtherException exc printed))), m') \<Rightarrow>
          run_catch (''ServiceManager: '' @ printed) m'
      | (Inl a, m') \<Rightarrow> (Inl a, m'))"

section \<open>Observations on the trace\<close>

text \<open>The names on which \<open>init\<close>, \<open>start\<close> and \<open>stop\<close> were called, in order of the calls.\<close>

fun init_calls :: "event list \<Rightarrow> string list" where
  "init_calls [] = []"
| "init_calls (InitCall name props args # evs) = name # init_calls evs"
| "init_calls (e # evs) = init_calls evs"

fun start_calls :: "event list \<Rightarrow> string list" where
  "start_calls [] = []"
| "start_calls (StartCall name # evs) = name # start_calls evs"
| "start_calls (e # evs) = start_calls evs"

fun stop_calls :: "event list \<Rightarrow> string list" where
  "stop_calls [] = []"
| "stop_calls (StopCall name # evs) = name # stop_calls evs"
| "stop_calls (e # evs) = stop_calls evs"

text \<open>Every stop of the registry returns.\<close>

definition stops_return :: "ServiceInfo std_map \<Rightarrow> bool" where
  "stops_return reg = list_all (\<lambda>(name, info). on_stop (service info) = None) reg"

text \<open>Every start of a list of records returns.\<close>

definition starts_return :: "ServiceInfo std_map \<Rightarrow> bool" where
  "starts_return reg = list_all (\<lambda>(name, info). on_start (service info) = None) reg"

text \<open>
  The service names in the order in which the first loop of \<open>run\<close> meets them: the keys
  of the \<open>PropertyDict\<close>, in its iteration order, without the prefix (line 79).
\<close>

definition names_of :: "(string \<times> string) list \<Rightarrow> string list" where
  "names_of dict = map (\<lambda>(key, val). substr_from key (length service_prefix)) dict"


section \<open>Example services and registries\<close>

text \<open>
  Services whose \<open>init\<close> returns, with a given outcome of \<open>start\<close> and of \<open>stop\<close>; a
  manager with a given registry and trace; and two records: one that stops quietly and
  one whose stop throws an Ice exception.
\<close>

definition example_service :: "exn option \<Rightarrow> exn option \<Rightarrow> Service" where
  "example_service start_outcome stop_outcome =
     \<lparr>on_init = (\<lambda>name props args. None), on_start = start_outcome, on_stop = stop_outcome\<rparr>"

definition example_manager :: "ServiceInfo std_map \<Rightarrow> event list \<Rightarrow> ServiceManagerI" where
  "example_manager reg evs =
     \<lparr>m_progName = ''icebox'', m_argv = [], m_options = [], m_services = reg, events = evs\<rparr>"

definition quiet_info :: ServiceInfo where
  "quiet_info = \<lparr>service = example_service None None, library = ''libQ:create''\<rparr>"

definition stop_error_info :: ServiceInfo where
  "stop_error_info =
     \<lparr>service = example_service None (Some (Ice (OtherException ''Demo::StopError'' ''stop failed''))),
      library = ''libE:create''\<rparr>"

text \<open>
  An example runtime, from the properties in the order in which its property set
  enumerates them: its \<open>parseCommandLineOptions\<close> stores the options that begin with
  \<open>--<prefix>.\<close> as key and value and returns the other arguments; its loader is a
  parameter, and \<open>example_loader\<close> knows a few entry points by name.
\<close>

definition example_parse :: "Properties \<Rightarrow> string \<Rightarrow> string list \<Rightarrow> Properties \<times> string list" where
  "example_parse props pfx args =
     (props @ map (\<lambda>a. (takeWhile (\<lambda>c. c \<noteq> CHR ''='') (drop 2 a),
                          drop 1 (dropWhile (\<lambda>c. c \<noteq> CHR ''='') (drop 2 a))))
                (filter (prefix (''--'' @ pfx @ ''.'')) args),
      filter (\<lambda>a. \<not> prefix (''--'' @ pfx @ ''.'') a) args)"

definition example_runtime ::
  "(string \<times> string) list \<Rightarrow> (string \<Rightarrow> (exn + Service) option) \<Rightarrow> Runtime" where
  "example_runtime conf loader =
     \<lparr>getPropertiesForPrefix = (\<lambda>pfx. filter (\<lambda>(key, val). prefix pfx key) conf),
      getProperty = (\<lambda>key. case map_of conf key of None \<Rightarrow> [] | Some val \<Rightarrow> val),
      commandLineOptions = [], createProperties = (\<lambda>args. []),
      parseCommandLineOptions = example_parse, loadEntryPoint = loader,
      getErrorMessage = (\<lambda>entryPoint. ''cannot open''),
      createObjectAdapterFromProperty = None, adapter_add = None, adapter_activate = None,
      waitForShutdown = None\<rparr>"

definition example_loader :: "string \<Rightarrow> (exn + Service) option" where
  "example_loader entryPoint =
     (if entryPoint = ''libMissing:create'' then None
      else if entryPoint = ''libThrowsFailure:create'' then Some (Inl (Ice (FailureException ''x'')))
      else if entryPoint = ''libThrowsOther:create'' then Some (Inl NonIce)
      else if entryPoint = ''libInitNonIce:create''
        then Some (Inr \<lparr>on_init = (\<lambda>name props args. Some NonIce), on_start = None, on_stop = None\<rparr>)
      else if entryPoint = ''libStartFails:create''
        then Some (Inr (example_service (Some (Ice (OtherException ''Demo::StartError'' ''start failed''))) None))
      else if entryPoint = ''libStopFails:create''
        then Some (Inr (example_service None (Some (Ice (OtherException ''Demo::StopError'' ''stop failed'')))))
      else Some (Inr (example_service None None)))"

definition init_failure_service :: "exn \<Rightarrow> Service" where
  "init_failure_service e = \<lparr>on_init = (\<lambda>name props args. Some e), on_start = None, on_stop = None\<rparr>"

definition start_failure_info :: "exn \<Rightarrow> ServiceInfo" where
  "start_failure_info e = \<lparr>service = example_service (Some e) None, library = ''libS:create''\<rparr>"

text \<open>
  Three configurations. In the first, \<open>Alpha\<close> and \<open>Beta\<close> start and the stop of
  \<open>Alpha\<close> throws an Ice exception. In the second, the start of \<open>Middle\<close>, between
  \<open>First\<close> and \<open>Third\<close>, throws one and every stop returns. In the third, the property
  set enumerates \<open>Beta\<close> before \<open>Alpha\<close> and nothing throws. The last two come with the
  manager as it is after the initializations.
\<close>

definition two_services_runtime :: Runtime where
  "two_services_runtime =
     example_runtime
       [(''IceBox.PrintServicesReady'', ''MyBundle''),
        (''IceBox.Service.Alpha'', ''libStopFails:create''),
        (''IceBox.Service.Beta'', ''libB:create  --Beta.x=1'')]
       example_loader"

definition three_services_runtime :: Runtime where
  "three_services_runtime =
     example_runtime
       [(''IceBox.Service.First'', ''libA:create''),
        (''IceBox.Service.Middle'', ''libStartFails:create''),
        (''IceBox.Service.Third'', ''libC:create'')]
       example_loader"

definition three_services_initialized :: ServiceManagerI where
  "three_services_initialized =
     example_manager
       [(''First'', \<lparr>service = example_service None None, library = ''libA:create''\<rparr>),
        (''Middle'', \<lparr>service = example_service (Some (Ice (OtherException ''Demo::StartError'' ''start failed''))) None,
                     library = ''libStartFails:create''\<rparr>),
        (''Third'', \<lparr>service = example_service None None, library = ''libC:create''\<rparr>)]
       [FactoryCall ''libA:create'', InitCall ''First'' [] [],
        FactoryCall ''libStartFails:create'', InitCall ''Middle'' [] [],
        FactoryCall ''libC:create'', InitCall ''Third'' [] []]"



section \<open>Properties of SimpleShared\<close>

lemma sint_inc: "0 \<le> sint (w::32 word) \<Longrightarrow> sint w < 2^31 - 1 \<Longrightarrow> sint (w + 1) = sint w + 1"
  by (simp add: sint_word_ariths signed_take_bit_int_eq_self)

lemma sint_dec: "0 < sint (w::32 word) \<Longrightarrow> sint (w - 1) = sint w - 1"
  using sint_lt [of w]
  by (simp add: sint_word_ariths signed_take_bit_int_eq_self)

lemma sint_eq_1: "sint (w::32 word) = 1 \<longleftrightarrow> w = 1"
proof
  assume "sint w = 1"
  then have "sint w = sint (1::32 word)" by simp
  then show "w = 1" by (rule signed_word_eqI)
next
  assume "w = 1"
  then show "sint w = 1" by simp
qed

text \<open>
  C10, as amended. While the count is at least 0 and below \<open>INT_MAX\<close>, \<open>__incRef\<close> adds
  exactly one to it; while the count is positive, \<open>__decRef\<close> subtracts exactly one and
  deletes the object exactly when the count was 1 and \<open>_noDelete\<close> is false; and for
  every count from 1 to \<open>INT_MAX - 1\<close>, \<open>__incRef\<close> followed by \<open>__decRef\<close> gives the
  object back as it was, count included, without deleting it.
\<close>

theorem SimpleShared_counting:
  "(0 \<le> getRef s \<and> getRef s < INT_MAX \<longrightarrow>
      (\<exists>s'. incRef s = Inr s' \<and> getRef s' = getRef s + 1 \<and> noDelete s' = noDelete s))
   \<and> (0 < getRef s \<longrightarrow>
      (\<exists>r. decRef s = Inr r
         \<and> (r = None \<longleftrightarrow> getRef s = 1 \<and> \<not> noDelete s)
         \<and> (\<forall>s'. r = Some s' \<longrightarrow> getRef s' = getRef s - 1 \<and> noDelete s' = noDelete s)))
   \<and> (1 \<le> getRef s \<and> getRef s < INT_MAX \<longrightarrow> incRef_then_decRef s = Inr (Some s))"
proof (intro conjI impI)
  assume "0 \<le> getRef s \<and> getRef s < INT_MAX"
  then show "\<exists>s'. incRef s = Inr s' \<and> getRef s' = getRef s + 1 \<and> noDelete s' = noDelete s"
    by (simp add: incRef_def getRef_def INT_MAX_def sint_inc)
next
  assume pos: "0 < getRef s"
  have z: "ref s = 1 \<longleftrightarrow> getRef s = 1"
    by (simp add: getRef_def sint_eq_1)
  from pos z show "\<exists>r. decRef s = Inr r
         \<and> (r = None \<longleftrightarrow> getRef s = 1 \<and> \<not> noDelete s)
         \<and> (\<forall>s'. r = Some s' \<longrightarrow> getRef s' = getRef s - 1 \<and> noDelete s' = noDelete s)"
    by (auto simp: decRef_def getRef_def Let_def sint_dec)
next
  assume n: "1 \<le> getRef s \<and> getRef s < INT_MAX"
  then have "sint (ref s + 1) = sint (ref s) + 1"
    by (simp add: getRef_def INT_MAX_def sint_inc)
  moreover from n have "ref s \<noteq> 0"
    by (auto simp: getRef_def)
  ultimately show "incRef_then_decRef s = Inr (Some s)"
    using n by (simp add: incRef_then_decRef_def incRef_def decRef_def getRef_def Let_def)
qed

theorem SimpleShared_counting_witness:
  "incRef \<lparr>ref = 1, noDelete = False\<rparr> = Inr \<lparr>ref = 2, noDelete = False\<rparr>
   \<and> decRef \<lparr>ref = 1, noDelete = False\<rparr> = Inr None
   \<and> decRef \<lparr>ref = 2, noDelete = False\<rparr> = Inr (Some \<lparr>ref = 1, noDelete = False\<rparr>)
   \<and> incRef_then_decRef \<lparr>ref = 1, noDelete = False\<rparr> = Inr (Some \<lparr>ref = 1, noDelete = False\<rparr>)"
  using SimpleShared_counting [of "\<lparr>ref = 1, noDelete = False\<rparr>"]
    SimpleShared_counting [of "\<lparr>ref = 2, noDelete = False\<rparr>"]
  by (simp add: getRef_def INT_MAX_def incRef_def decRef_def)

text \<open>
  C10 fails at the count \<open>INT_MAX\<close>: the assertion of \<open>__incRef\<close> holds, the increment
  wraps around to \<open>INT_MIN\<close>, which is not one more, and the assertion of the \<open>__decRef\<close>
  that follows fails.
\<close>

theorem SimpleShared_INT_MAX_counterexample:
  "1 \<le> getRef \<lparr>ref = 0x7FFFFFFF, noDelete = False\<rparr>
   \<and> getRef \<lparr>ref = 0x7FFFFFFF, noDelete = False\<rparr> = INT_MAX
   \<and> incRef \<lparr>ref = 0x7FFFFFFF, noDelete = False\<rparr> = Inr \<lparr>ref = 0x80000000, noDelete = False\<rparr>
   \<and> getRef \<lparr>ref = 0x80000000, noDelete = False\<rparr> = - (2 ^ 31)
   \<and> incRef_then_decRef \<lparr>ref = 0x7FFFFFFF, noDelete = False\<rparr> = Inl AssertionFailed"
  by (simp add: incRef_then_decRef_def incRef_def decRef_def getRef_def INT_MAX_def)


section \<open>The registry, stop and stopAll\<close>

lemma map_wf_Cons: "map_wf ((k, v) # m) \<longleftrightarrow> (\<forall>k' \<in> fst ` set m. k < k') \<and> map_wf m"
  by (auto simp: map_wf_def)

lemma map_next_head: "map_wf ((k, v) # m) \<Longrightarrow> map_next k ((k, v) # m) = map_begin m"
  by (cases m) (auto simp: map_wf_def map_begin_def)

lemma stop_head:
  assumes "m_services m = (k, info) # rest"
  shows "stop (KeyInMap k) m = stop_call (KeyInMap k) info (m\<lparr>m_services := rest\<rparr>)"
  using assms by (simp add: stop_def stop_erase_def)

lemma stopAll_loop_None: "stopAll_loop None m = (Inr (), m)"
  by (simp add: stopAll_loop.simps)

lemma stopAll_loop_continue:
  "stop (KeyInMap k) m = (Inr (), m') \<Longrightarrow>
     stopAll_loop (Some k) m = stopAll_loop (map_next k (m_services m)) m'"
  by (subst stopAll_loop.simps) simp



text \<open>
  On a well-formed registry whose stops all return, the loop visits every entry in
  order and leaves the registry empty.
\<close>

lemma stopAll_loop_returns:
  "m_services m = reg \<Longrightarrow> map_wf reg \<Longrightarrow> stops_return reg \<Longrightarrow>
     stopAll_loop (map_begin reg) m
       = (Inr (), m\<lparr>m_services := [], events := events m @ map StopCall (map fst reg)\<rparr>)"
proof (induction reg arbitrary: m)
  case Nil
  then show ?case by (simp add: map_begin_def stopAll_loop_None)
next
  case (Cons entry rest)
  obtain k info where entry: "entry = (k, info)" by (cases entry)
  from Cons.prems entry have reg: "m_services m = (k, info) # rest" by simp
  from Cons.prems entry have wf: "map_wf ((k, info) # rest)" by simp
  then have wf': "map_wf rest" by (simp add: map_wf_Cons)
  from Cons.prems entry have ret: "on_stop (service info) = None" "stops_return rest"
    by (simp_all add: stops_return_def)
  have nxt: "map_next k (m_services m) = map_begin rest"
    using reg wf by (simp only: map_next_head)
  let ?m1 = "emit (StopCall k) (m\<lparr>m_services := rest\<rparr>)"
  have st: "stop (KeyInMap k) m = (Inr (), ?m1)"
    using reg ret(1) by (simp add: stop_head stop_call_def)
  have "stopAll_loop (map_begin rest) ?m1
      = (Inr (), ?m1\<lparr>m_services := [], events := events ?m1 @ map StopCall (map fst rest)\<rparr>)"
    by (rule Cons.IH) (simp_all add: emit_def wf' ret)
  then show ?case
    using stopAll_loop_continue [OF st] nxt entry by (simp add: map_begin_def emit_def)
qed

lemma stopAll_returns:
  assumes "map_wf (m_services m)" and "stops_return (m_services m)"
  shows "stopAll m
     = (Inr (), m\<lparr>m_services := [], events := events m @ map StopCall (map fst (m_services m))\<rparr>)"
  using stopAll_loop_returns [OF refl assms] by (simp add: stopAll_def)

lemma stop_calls_append: "stop_calls (xs @ ys) = stop_calls xs @ stop_calls ys"
  by (induction xs rule: stop_calls.induct) auto

lemma stop_calls_StopCall: "stop_calls (map StopCall xs) = xs"
  by (induction xs) auto

lemma map_wf_distinct: "map_wf m \<Longrightarrow> distinct (map fst m)"
  by (simp add: map_wf_def strict_sorted_iff)


text \<open>
  C5. The claim is what the handler of \<open>stopAll\<close> and its closing \<open>assert\<close> are written
  for, and the code misses it. With a registry of \<open>A\<close> and \<open>B\<close> where the stop of \<open>A\<close>
  throws an Ice exception, \<open>stopAll\<close> binds the parameter of \<open>stop\<close> to the key inside the
  entry of \<open>A\<close> (line 330), \<open>stop\<close> erases that entry (line 296), and its handler reads
  the destroyed key to build the reason (line 311). The behaviour is undefined from
  there: \<open>B\<close> has not been stopped and is still in the registry, and neither the log
  entry nor the continuation is guaranteed.
\<close>

theorem stopAll_reads_erased_key:
  "stopAll (example_manager [(''A'', stop_error_info), (''B'', quiet_info)] [])
     = (Inl Undefined, example_manager [(''B'', quiet_info)] [StopCall ''A''])"
  by (simp add: stopAll_def example_manager_def example_service_def stop_error_info_def
      quiet_info_def map_begin_def stopAll_loop.simps stop_def stop_erase_def stop_call_def
      emit_def)



section \<open>Separating entry point and arguments\<close>

lemma in_ws: "c \<in> set ws \<longleftrightarrow> is_ws c"
  by (auto simp: ws_def is_ws_def)

lemma first_index_None: "first_index P xs = None \<longleftrightarrow> (\<forall>x \<in> set xs. \<not> P x)"
  by (induction xs) auto

lemma first_index_takeWhile:
  "first_index P xs = Some i \<Longrightarrow> i = length (takeWhile (\<lambda>x. \<not> P x) xs)"
  by (induction xs arbitrary: i) (auto split: if_splits)

lemma first_index_cases:
  "first_index P xs = (if \<exists>x \<in> set xs. P x then Some (length (takeWhile (\<lambda>x. \<not> P x) xs)) else None)"
proof (cases "first_index P xs")
  case None
  then show ?thesis by (simp add: first_index_None)
next
  case (Some i)
  then have "\<exists>x \<in> set xs. P x"
    using first_index_None [of P xs] by auto
  with Some first_index_takeWhile [OF Some] show ?thesis by simp
qed

lemma find_first_of_ws:
  "find_first_of val ws b =
     (if \<exists>c \<in> set (drop b val). is_ws c
      then Some (b + length (takeWhile (\<lambda>c. \<not> is_ws c) (drop b val))) else None)"
  by (simp add: find_first_of_def first_index_cases in_ws)

lemma find_first_not_of_ws:
  "find_first_not_of val ws b =
     (if \<exists>c \<in> set (drop b val). \<not> is_ws c
      then Some (b + length (takeWhile is_ws (drop b val))) else None)"
  by (simp add: find_first_not_of_def first_index_cases in_ws)

lemma spec_tokens_acc_run:
  "spec_tokens_acc cur s =
     (let t = cur @ takeWhile (\<lambda>c. \<not> is_ws c) s
      in (if t = [] then [] else [t]) @ spec_tokens_acc [] (dropWhile is_ws (dropWhile (\<lambda>c. \<not> is_ws c) s)))"
proof (induction s arbitrary: cur)
  case Nil
  then show ?case by simp
next
  case (Cons c s)
  show ?case
  proof (cases "is_ws c")
    case True
    have "spec_tokens_acc [] s = spec_tokens_acc [] (dropWhile is_ws s)"
    proof (induction s)
      case Nil
      then show ?case by simp
    next
      case (Cons d s)
      then show ?case by simp
    qed
    with True show ?thesis by (simp add: Let_def)
  next
    case False
    with Cons.IH [of "cur @ [c]"] show ?thesis by (simp add: Let_def)
  qed
qed

lemma spec_tokens_skip: "spec_tokens (dropWhile is_ws s) = spec_tokens s"
  unfolding spec_tokens_def by (induction s) auto

lemma spec_tokens_all_ws: "\<forall>c \<in> set s. is_ws c \<Longrightarrow> spec_tokens s = []"
  unfolding spec_tokens_def by (induction s) auto

lemma spec_tokens_token:
  assumes "s \<noteq> []" and "\<not> is_ws (hd s)"
  shows "spec_tokens s = takeWhile (\<lambda>c. \<not> is_ws c) s # spec_tokens (dropWhile (\<lambda>c. \<not> is_ws c) s)"
proof -
  from assms have "takeWhile (\<lambda>c. \<not> is_ws c) s \<noteq> []"
    by (cases s) auto
  then show ?thesis
    unfolding spec_tokens_def
    by (subst spec_tokens_acc_run) (simp add: Let_def spec_tokens_skip [unfolded spec_tokens_def])
qed

lemma parse_args_None: "parse_args val None args = args"
  by (simp add: parse_args.simps)

lemma parse_args_last:
  "find_first_of val ws b = None \<Longrightarrow> parse_args val (Some b) args = args @ [substr_from val b]"
  by (subst parse_args.simps) (simp add: parse_args_None)

lemma parse_args_more:
  "find_first_of val ws b = Some e \<Longrightarrow>
     parse_args val (Some b) args
       = parse_args val (find_first_not_of val ws e) (args @ [substr val b (e - b)])"
  by (subst parse_args.simps) simp

lemma parse_args_tokens:
  "parse_args val (find_first_not_of val ws e) args = args @ spec_tokens (drop e val)"
proof (induction "length val - e" arbitrary: e args rule: less_induct)
  case less
  show ?case
  proof (cases "\<exists>c \<in> set (drop e val). \<not> is_ws c")
    case False
    then have "find_first_not_of val ws e = None"
      by (simp add: find_first_not_of_ws)
    moreover from False have "spec_tokens (drop e val) = []"
      by (simp add: spec_tokens_all_ws)
    ultimately show ?thesis by (simp add: parse_args_None)
  next
    case True
    define b where "b = e + length (takeWhile is_ws (drop e val))"
    define s where "s = dropWhile is_ws (drop e val)"
    from True have fb: "find_first_not_of val ws e = Some b"
      by (simp add: find_first_not_of_ws b_def)
    have sb: "drop b val = s"
      by (simp add: b_def s_def dropWhile_eq_drop add.commute)
    from True have s_ne: "s \<noteq> []"
      by (auto simp: s_def dropWhile_eq_Nil_conv)
    then have s_hd: "\<not> is_ws (hd s)"
      unfolding s_def by (rule hd_dropWhile)
    have e_lt: "e < length val"
      using True by (cases "e < length val") auto
    have tok: "spec_tokens (drop e val)
        = takeWhile (\<lambda>c. \<not> is_ws c) s # spec_tokens (dropWhile (\<lambda>c. \<not> is_ws c) s)"
      using spec_tokens_token [OF s_ne s_hd] spec_tokens_skip [of "drop e val"]
      by (simp add: s_def)
    show ?thesis
    proof (cases "\<exists>c \<in> set s. is_ws c")
      case False
      then have "find_first_of val ws b = None"
        by (simp add: find_first_of_ws sb)
      then have "parse_args val (Some b) args = args @ [s]"
        by (simp add: parse_args_last substr_from_def sb)
      moreover from False have tw: "takeWhile (\<lambda>c. \<not> is_ws c) s = s"
        and dw: "dropWhile (\<lambda>c. \<not> is_ws c) s = []"
        by simp_all
      ultimately show ?thesis
        using fb by (simp add: tok tw dw spec_tokens_def [of "[]"])
    next
      case True
      define n where "n = length (takeWhile (\<lambda>c. \<not> is_ws c) s)"
      from True have fe: "find_first_of val ws b = Some (b + n)"
        by (simp add: find_first_of_ws sb n_def)
      have n_pos: "0 < n"
        using s_ne s_hd by (cases s) (auto simp: n_def)
      have sub: "substr val b (b + n - b) = takeWhile (\<lambda>c. \<not> is_ws c) s"
        by (simp add: substr_def sb n_def takeWhile_eq_take [symmetric])
      have "drop (b + n) val = drop n (drop b val)"
        by (simp add: add.commute)
      then have dr: "drop (b + n) val = dropWhile (\<lambda>c. \<not> is_ws c) s"
        by (simp only: sb n_def dropWhile_eq_drop)
      have "length val - (b + n) < length val - e"
        using e_lt n_pos by (simp add: b_def)
      from less [OF this]
      have "parse_args val (find_first_not_of val ws (b + n)) (args @ [takeWhile (\<lambda>c. \<not> is_ws c) s])
          = (args @ [takeWhile (\<lambda>c. \<not> is_ws c) s]) @ spec_tokens (drop (b + n) val)" .
      then show ?thesis
        using fb tok parse_args_more [OF fe] sub dr by simp
    qed
  qed
qed

lemma parse_service_tokens:
  "parse_service val = (takeWhile (\<lambda>c. \<not> is_ws c) val, spec_tokens (dropWhile (\<lambda>c. \<not> is_ws c) val))"
proof (cases "\<exists>c \<in> set val. is_ws c")
  case False
  then have "find_first_of val ws 0 = None"
    by (simp add: find_first_of_ws)
  moreover from False have tw: "takeWhile (\<lambda>c. \<not> is_ws c) val = val"
    and dw: "dropWhile (\<lambda>c. \<not> is_ws c) val = []"
    by simp_all
  ultimately show ?thesis
    by (simp add: parse_service_def tw dw spec_tokens_def [of "[]"])
next
  case True
  define n where "n = length (takeWhile (\<lambda>c. \<not> is_ws c) val)"
  from True have "find_first_of val ws 0 = Some n"
    by (simp add: find_first_of_ws n_def)
  moreover have "substr val 0 n = takeWhile (\<lambda>c. \<not> is_ws c) val"
    by (simp add: substr_def n_def takeWhile_eq_take [symmetric])
  moreover have "drop n val = dropWhile (\<lambda>c. \<not> is_ws c) val"
    by (simp add: n_def dropWhile_eq_drop)
  ultimately show ?thesis
    by (simp add: parse_service_def parse_args_tokens)
qed

text \<open>
  C3, as amended. For every value that begins with a character other than space, tab and
  newline, the parse of \<open>run\<close> yields the first token of the tokenization as entry point
  and the remaining tokens as arguments; for a value that is empty or begins with such a
  character, the entry point is the empty string and every token is an argument.
\<close>

theorem parse_service_tokenization:
  "(val \<noteq> [] \<and> \<not> is_ws (hd val) \<longrightarrow> spec_parse_service val = Some (parse_service val))
   \<and> (val = [] \<or> is_ws (hd val) \<longrightarrow> parse_service val = ([], spec_tokens val))"
proof (intro conjI impI)
  assume a: "val \<noteq> [] \<and> \<not> is_ws (hd val)"
  then have "spec_tokens val = takeWhile (\<lambda>c. \<not> is_ws c) val # spec_tokens (dropWhile (\<lambda>c. \<not> is_ws c) val)"
    by (simp add: spec_tokens_token)
  then show "spec_parse_service val = Some (parse_service val)"
    by (simp add: spec_parse_service_def parse_service_tokens)
next
  assume "val = [] \<or> is_ws (hd val)"
  then have "takeWhile (\<lambda>c. \<not> is_ws c) val = []" "dropWhile (\<lambda>c. \<not> is_ws c) val = val"
    by (cases val; auto)+
  then show "parse_service val = ([], spec_tokens val)"
    by (simp add: parse_service_tokens)
qed

theorem parse_service_tokenization_witness:
  "spec_parse_service ''libB:create  --Beta.x=1'' = Some (''libB:create'', [''--Beta.x=1''])
   \<and> parse_service ''libB:create  --Beta.x=1'' = (''libB:create'', [''--Beta.x=1''])
   \<and> parse_service '' a'' = ([], [''a''])"
  using parse_service_tokenization [of "''libB:create  --Beta.x=1''"]
    parse_service_tokenization [of "'' a''"]
  by (simp add: is_ws_def spec_parse_service_def spec_tokens_def)

text \<open>
  C3 fails for a value that begins with a space: the code stops the entry point at
  position 0, the tokenization takes the first token.
\<close>

theorem parse_service_leading_space_counterexample:
  "parse_service '' a b'' = ([], [''a'', ''b''])
   \<and> spec_parse_service '' a b'' = Some (''a'', [''b''])"
  by code_simp


section \<open>init and the translation of failures\<close>

lemma find_str_prefix: "find_str s p = Some 0 \<longleftrightarrow> prefix p s"
  by (cases s) auto

lemma push_matching_filter:
  "push_matching name xs acc = acc @ filter (prefix (''--'' @ name @ ''.'')) xs"
  unfolding push_matching_def
  by (induction xs arbitrary: acc) (simp_all add: find_str_prefix)

lemma fold_push_back: "fold (\<lambda>a acc. acc @ [a]) xs acc = acc @ xs"
  by (induction xs arbitrary: acc) simp_all

lemma compose_serviceArgs_filter:
  "compose_serviceArgs m name args =
     filter (prefix (''--'' @ name @ ''.'')) (m_options m) @ args
       @ filter (prefix (''--'' @ name @ ''.'')) (m_argv m)"
  by (simp add: compose_serviceArgs_def push_matching_filter fold_push_back)

text \<open>
  C4. For a service \<open>name\<close> with descriptor arguments \<open>args\<close>, the composed
  \<open>serviceArgs\<close> are the recognized options that begin with \<open>--<name>.\<close>, then \<open>args\<close>,
  then the container arguments that begin with \<open>--<name>.\<close>, each in order; a fresh
  property set is made from them and consumes the \<open>Ice\<close> options and then the options of
  the service; and when the entry point yields a service, its \<open>init\<close> is called exactly
  with the resulting property set and remaining arguments, and decides the outcome.
\<close>

theorem init_passes_composed_arguments:
  "service_configuration rt m name args =
     (let serviceArgs = filter (prefix (''--'' @ name @ ''.'')) (m_options m) @ args
                          @ filter (prefix (''--'' @ name @ ''.'')) (m_argv m);
          (props1, residual1) = parseCommandLineOptions rt (createProperties rt serviceArgs) ''Ice'' serviceArgs
      in parseCommandLineOptions rt props1 name residual1)
   \<and> (loadEntryPoint rt entryPoint = Some (Inr svc) \<longrightarrow>
        events (snd (init rt name entryPoint args m))
          = events m @ [FactoryCall entryPoint,
                        InitCall name (fst (service_configuration rt m name args))
                                      (snd (service_configuration rt m name args))]
        \<and> (fst (init rt name entryPoint args m) = Inr svc
             \<longleftrightarrow> on_init svc name (fst (service_configuration rt m name args))
                                   (snd (service_configuration rt m name args)) = None))"
proof (intro conjI impI)
  show "service_configuration rt m name args =
     (let serviceArgs = filter (prefix (''--'' @ name @ ''.'')) (m_options m) @ args
                          @ filter (prefix (''--'' @ name @ ''.'')) (m_argv m);
          (props1, residual1) = parseCommandLineOptions rt (createProperties rt serviceArgs) ''Ice'' serviceArgs
      in parseCommandLineOptions rt props1 name residual1)"
    by (simp add: service_configuration_def compose_serviceArgs_filter)
next
  assume "loadEntryPoint rt entryPoint = Some (Inr svc)"
  then show "events (snd (init rt name entryPoint args m))
          = events m @ [FactoryCall entryPoint,
                        InitCall name (fst (service_configuration rt m name args))
                                      (snd (service_configuration rt m name args))]"
    by (auto simp: init_def emit_def Let_def split: prod.splits option.splits exn.splits ice_exception.splits)
next
  assume "loadEntryPoint rt entryPoint = Some (Inr svc)"
  then show "fst (init rt name entryPoint args m) = Inr svc
             \<longleftrightarrow> on_init svc name (fst (service_configuration rt m name args))
                                   (snd (service_configuration rt m name args)) = None"
    by (auto simp: init_def emit_def Let_def split: prod.splits option.splits exn.splits ice_exception.splits)
qed

theorem init_passes_composed_arguments_witness:
  "loadEntryPoint (example_runtime [] example_loader) ''libB:create'' = Some (Inr (example_service None None))
   \<and> init (example_runtime [] example_loader) ''Beta'' ''libB:create'' [''--Beta.x=1'', ''foo'']
       \<lparr>m_progName = ''icebox'', m_argv = [''--Beta.z=3'', ''--Alpha.q=0''],
        m_options = [''--Beta.y=2'', ''--Ice.Trace=1''], m_services = [], events = []\<rparr>
     = (Inr (example_service None None),
        \<lparr>m_progName = ''icebox'', m_argv = [''--Beta.z=3'', ''--Alpha.q=0''],
         m_options = [''--Beta.y=2'', ''--Ice.Trace=1''],
         m_services = [(''Beta'', \<lparr>service = example_service None None, library = ''libB:create''\<rparr>)],
         events = [FactoryCall ''libB:create'',
                   InitCall ''Beta'' [(''Beta.y'', ''2''), (''Beta.x'', ''1''), (''Beta.z'', ''3'')] [''foo'']]\<rparr>)"
  using init_passes_composed_arguments [of "example_runtime [] example_loader" 
       "\<lparr>m_progName = ''icebox'', m_argv = [''--Beta.z=3'', ''--Alpha.q=0''],
        m_options = [''--Beta.y=2'', ''--Ice.Trace=1''], m_services = [], events = []\<rparr>"
       "''Beta''" "[''--Beta.x=1'', ''foo'']" "''libB:create''" "example_service None None"]
  by (simp add: example_runtime_def example_loader_def example_service_def example_parse_def
      init_def service_configuration_def emit_def compose_serviceArgs_def push_matching_def)


lemma map_find_assign: "map_find k (map_assign k v m) = Some v"
  by (induction m) auto

lemma map_find_assign_other: "n \<noteq> k \<Longrightarrow> map_find n (map_assign k v m) = map_find n m"
  by (induction m) auto

lemma map_find_None_above: "\<forall>x \<in> fst ` set m. k < x \<Longrightarrow> map_find k m = None"
  by (induction m) auto

lemma map_assign_present_keys:
  "map_wf m \<Longrightarrow> map_find k m = Some old \<Longrightarrow> map fst (map_assign k v m) = map fst m"
proof (induction m)
  case Nil
  then show ?case by simp
next
  case (Cons e m)
  obtain k' v' where e: "e = (k', v')" by (cases e)
  from Cons.prems e have above: "\<forall>x \<in> fst ` set m. k' < x" and wf: "map_wf m"
    by (simp_all add: map_wf_Cons)
  show ?case
  proof (cases "k = k'")
    case True
    with e show ?thesis by simp
  next
    case False
    with Cons.prems e have found: "map_find k m = Some old" by simp
    have "\<not> k < k'"
    proof
      assume "k < k'"
      with above have "\<forall>x \<in> fst ` set m. k < x" by auto
      then have "map_find k m = None" by (rule map_find_None_above)
      with found show False by simp
    qed
    with False e Cons.IH [OF wf found] show ?thesis by simp
  qed
qed

lemma init_success:
  assumes "fst (init rt name entryPoint args m) = Inr svc"
  shows "init rt name entryPoint args m
      = (Inr svc,
         m\<lparr>m_services := map_assign name \<lparr>service = svc, library = entryPoint\<rparr> (m_services m),
           events := events m @ [FactoryCall entryPoint,
                        InitCall name (fst (service_configuration rt m name args))
                                      (snd (service_configuration rt m name args))]\<rparr>)"
  using assms
  by (auto simp: init_def emit_def Let_def
      split: prod.splits option.splits sum.splits exn.splits ice_exception.splits)

text \<open>
  C9. When \<open>init\<close> succeeds for a name that the registry already holds, the record of
  the name is replaced by the new one: the keys of the registry and the other records are
  unchanged, the trace gains the call of the factory and of the new service's \<open>init\<close> and
  no call of any stop, and \<open>init\<close> returns the new service.
\<close>

theorem init_overwrites_existing_record:
  assumes "map_wf (m_services m)" and "map_find name (m_services m) = Some old"
    and "fst (init rt name entryPoint args m) = Inr svc"
  shows "\<exists>m'. init rt name entryPoint args m = (Inr svc, m')
           \<and> map_find name (m_services m') = Some \<lparr>service = svc, library = entryPoint\<rparr>
           \<and> map fst (m_services m') = map fst (m_services m)
           \<and> (\<forall>n. n \<noteq> name \<longrightarrow> map_find n (m_services m') = map_find n (m_services m))
           \<and> events m' = events m @ [FactoryCall entryPoint,
                        InitCall name (fst (service_configuration rt m name args))
                                      (snd (service_configuration rt m name args))]
           \<and> stop_calls (events m') = stop_calls (events m)"
  using init_success [OF assms(3)] map_assign_present_keys [OF assms(1,2)]
  by (simp add: map_find_assign map_find_assign_other stop_calls_append)

theorem init_overwrites_existing_record_witness:
  "map_wf [(''A'', stop_error_info)]
   \<and> map_find ''A'' [(''A'', stop_error_info)] = Some stop_error_info
   \<and> init (example_runtime [] example_loader) ''A'' ''libNew:create'' []
        (example_manager [(''A'', stop_error_info)] [])
      = (Inr (example_service None None),
         example_manager [(''A'', \<lparr>service = example_service None None, library = ''libNew:create''\<rparr>)]
           [FactoryCall ''libNew:create'', InitCall ''A'' [] []])"
  using init_overwrites_existing_record
    [of "example_manager [(''A'', stop_error_info)] []" "''A''" stop_error_info
        "example_runtime [] example_loader" "''libNew:create''" "[]" "example_service None None"]
  by (simp add: example_runtime_def example_loader_def example_service_def example_parse_def
      example_manager_def stop_error_info_def map_wf_def
      init_def service_configuration_def emit_def compose_serviceArgs_def push_matching_def)


lemma startAll_first_failure:
  assumes "list_all (\<lambda>(n, i). on_start (service i) = None) pre"
    and "on_start (service info) = Some e"
  shows "startAll (pre @ (sname, info) # post) m
     = (Inl (Throw (case e of
                      Ice (FailureException reason) \<Rightarrow> Ice (FailureException reason)
                    | Ice (OtherException exc printed) \<Rightarrow> Ice (FailureException (start_failure sname exc))
                    | NonIce \<Rightarrow> NonIce)),
        m\<lparr>events := events m @ map StartCall (map fst pre) @ [StartCall sname]\<rparr>)"
  using assms
proof (induction pre arbitrary: m)
  case Nil
  then show ?case
    by (simp add: emit_def split: exn.splits ice_exception.splits)
next
  case (Cons p pre)
  obtain n i where p: "p = (n, i)" by (cases p)
  with Cons.prems have "on_start (service i) = None" "list_all (\<lambda>(n, i). on_start (service i) = None) pre"
    by simp_all
  with Cons.IH [of "emit (StartCall n) m"] Cons.prems(2) p show ?case
    by (simp add: emit_def)
qed

text \<open>
  C2, as amended. A null symbol surfaces as a Failure with the load prefix. Whatever the
  factory throws is wrapped into a Failure with the entry point prefix: an Ice exception,
  a Failure included, with its \<open>ice_name\<close>, anything else as unknown. A Failure thrown by
  the \<open>init\<close> or the \<open>start\<close> of a service is thrown on unchanged, another Ice exception is
  wrapped into a Failure with the initialization or start prefix, and what is not an
  Ice exception passes unchanged.
\<close>

theorem failure_translation:
  "(loadEntryPoint rt entryPoint = None \<longrightarrow>
      fst (init rt name entryPoint args m)
        = Inl (Throw (Ice (FailureException (load_failure entryPoint (getErrorMessage rt entryPoint))))))
   \<and> (loadEntryPoint rt entryPoint = Some (Inl (Ice ex)) \<longrightarrow>
      fst (init rt name entryPoint args m)
        = Inl (Throw (Ice (FailureException (factory_failure entryPoint (ice_name ex))))))
   \<and> (loadEntryPoint rt entryPoint = Some (Inl NonIce) \<longrightarrow>
      fst (init rt name entryPoint args m)
        = Inl (Throw (Ice (FailureException (factory_unknown_failure entryPoint)))))
   \<and> (loadEntryPoint rt entryPoint = Some (Inr svc)
        \<and> on_init svc name (fst (service_configuration rt m name args))
                            (snd (service_configuration rt m name args)) = Some e \<longrightarrow>
      fst (init rt name entryPoint args m)
        = Inl (Throw (case e of
                        Ice (FailureException reason) \<Rightarrow> Ice (FailureException reason)
                      | Ice (OtherException exc printed) \<Rightarrow> Ice (FailureException (init_failure name exc))
                      | NonIce \<Rightarrow> NonIce)))
   \<and> (list_all (\<lambda>(n, i). on_start (service i) = None) pre \<and> on_start (service info) = Some e \<longrightarrow>
      fst (startAll (pre @ (sname, info) # post) m)
        = Inl (Throw (case e of
                        Ice (FailureException reason) \<Rightarrow> Ice (FailureException reason)
                      | Ice (OtherException exc printed) \<Rightarrow> Ice (FailureException (start_failure sname exc))
                      | NonIce \<Rightarrow> NonIce)))"
proof (intro conjI impI)
  assume "loadEntryPoint rt entryPoint = None"
  then show "fst (init rt name entryPoint args m)
        = Inl (Throw (Ice (FailureException (load_failure entryPoint (getErrorMessage rt entryPoint)))))"
    by (simp add: init_def split: prod.splits)
next
  assume "loadEntryPoint rt entryPoint = Some (Inl (Ice ex))"
  then show "fst (init rt name entryPoint args m)
        = Inl (Throw (Ice (FailureException (factory_failure entryPoint (ice_name ex)))))"
    by (simp add: init_def split: prod.splits)
next
  assume "loadEntryPoint rt entryPoint = Some (Inl NonIce)"
  then show "fst (init rt name entryPoint args m)
        = Inl (Throw (Ice (FailureException (factory_unknown_failure entryPoint))))"
    by (simp add: init_def split: prod.splits)
next
  assume "loadEntryPoint rt entryPoint = Some (Inr svc)
        \<and> on_init svc name (fst (service_configuration rt m name args))
                            (snd (service_configuration rt m name args)) = Some e"
  then show "fst (init rt name entryPoint args m)
        = Inl (Throw (case e of
                        Ice (FailureException reason) \<Rightarrow> Ice (FailureException reason)
                      | Ice (OtherException exc printed) \<Rightarrow> Ice (FailureException (init_failure name exc))
                      | NonIce \<Rightarrow> NonIce))"
    by (auto simp: init_def Let_def split: prod.splits exn.splits ice_exception.splits)
next
  assume "list_all (\<lambda>(n, i). on_start (service i) = None) pre \<and> on_start (service info) = Some e"
  then show "fst (startAll (pre @ (sname, info) # post) m)
        = Inl (Throw (case e of
                        Ice (FailureException reason) \<Rightarrow> Ice (FailureException reason)
                      | Ice (OtherException exc printed) \<Rightarrow> Ice (FailureException (start_failure sname exc))
                      | NonIce \<Rightarrow> NonIce))"
    by (simp add: startAll_first_failure)
qed

theorem failure_translation_witness:
  "fst (init (example_runtime [] example_loader) ''S'' ''libMissing:create'' [] (example_manager [] []))
     = Inl (Throw (Ice (FailureException
         (''ServiceManager: unable to load entry point '' @ [CHR 0x60] @ ''libMissing:create'' @ [CHR 0x27]
            @ '': cannot open''))))
   \<and> fst (init (example_runtime [] example_loader) ''S'' ''libThrowsOther:create'' [] (example_manager [] []))
     = Inl (Throw (Ice (FailureException
         (''ServiceManager: unknown exception in entry point '' @ [CHR 0x60] @ ''libThrowsOther:create''
            @ [CHR 0x27]))))
   \<and> fst (init (example_runtime [] example_loader) ''S'' ''libThrowsFailure:create'' [] (example_manager [] []))
     = Inl (Throw (Ice (FailureException
         (''ServiceManager: exception in entry point '' @ [CHR 0x60] @ ''libThrowsFailure:create''
            @ [CHR 0x27] @ '': IceBox::FailureException''))))
   \<and> fst (init (example_runtime [] (\<lambda>entryPoint. Some (Inr (init_failure_service (Ice (FailureException ''no database''))))))
            ''S'' ''libS:create'' [] (example_manager [] []))
     = Inl (Throw (Ice (FailureException ''no database'')))
   \<and> fst (init (example_runtime [] (\<lambda>entryPoint. Some (Inr (init_failure_service (Ice (OtherException ''Demo::InitError'' ''init failed''))))))
            ''S'' ''libS:create'' [] (example_manager [] []))
     = Inl (Throw (Ice (FailureException ''ServiceManager: exception while initializing service S: Demo::InitError'')))
   \<and> fst (startAll [(''A'', quiet_info), (''B'', start_failure_info (Ice (FailureException ''no port''))), (''C'', quiet_info)]
            (example_manager [] []))
     = Inl (Throw (Ice (FailureException ''no port'')))
   \<and> fst (startAll [(''A'', quiet_info), (''B'', start_failure_info (Ice (OtherException ''Demo::StartError'' ''start failed''))), (''C'', quiet_info)]
            (example_manager [] []))
     = Inl (Throw (Ice (FailureException ''ServiceManager: exception in start for service B: Demo::StartError'')))"
  using
    failure_translation [where rt = "example_runtime [] example_loader"
      and entryPoint = "''libMissing:create''" and name = "''S''" and args = "[]"
      and m = "example_manager [] []"]
    failure_translation [where rt = "example_runtime [] example_loader"
      and entryPoint = "''libThrowsOther:create''" and name = "''S''" and args = "[]"
      and m = "example_manager [] []"]
    failure_translation [where rt = "example_runtime [] example_loader"
      and entryPoint = "''libThrowsFailure:create''" and name = "''S''" and args = "[]"
      and m = "example_manager [] []" and ex = "FailureException ''x''"]
    failure_translation [where
      rt = "example_runtime [] (\<lambda>entryPoint. Some (Inr (init_failure_service (Ice (FailureException ''no database'')))))"
      and entryPoint = "''libS:create''" and name = "''S''" and args = "[]"
      and m = "example_manager [] []"
      and svc = "init_failure_service (Ice (FailureException ''no database''))"
      and e = "Ice (FailureException ''no database'')"]
    failure_translation [where
      rt = "example_runtime [] (\<lambda>entryPoint. Some (Inr (init_failure_service (Ice (OtherException ''Demo::InitError'' ''init failed'')))))"
      and entryPoint = "''libS:create''" and name = "''S''" and args = "[]"
      and m = "example_manager [] []"
      and svc = "init_failure_service (Ice (OtherException ''Demo::InitError'' ''init failed''))"
      and e = "Ice (OtherException ''Demo::InitError'' ''init failed'')"]
    failure_translation [where e = "Ice (FailureException ''no port'')"
      and pre = "[(''A'', quiet_info)]"
      and info = "start_failure_info (Ice (FailureException ''no port''))"
      and sname = "''B''" and post = "[(''C'', quiet_info)]" and m = "example_manager [] []"]
    failure_translation [where e = "Ice (OtherException ''Demo::StartError'' ''start failed'')"
      and pre = "[(''A'', quiet_info)]"
      and info = "start_failure_info (Ice (OtherException ''Demo::StartError'' ''start failed''))"
      and sname = "''B''" and post = "[(''C'', quiet_info)]" and m = "example_manager [] []"]
  by (simp add: example_runtime_def example_loader_def example_service_def init_failure_service_def
      start_failure_info_def quiet_info_def load_failure_def factory_failure_def
      factory_unknown_failure_def init_failure_def start_failure_def)

text \<open>
  C2 fails at the factory, whose handlers are \<open>catch(const Exception&)\<close> and
  \<open>catch(...)\<close>: a Failure that the factory throws is wrapped like any Ice exception and
  its reason is lost. It also fails for \<open>init\<close> throwing what is not an Ice exception,
  which is not wrapped.
\<close>

theorem factory_failure_not_rethrown_counterexample:
  "loadEntryPoint (example_runtime [] example_loader) ''libThrowsFailure:create''
     = Some (Inl (Ice (FailureException ''x'')))
   \<and> fst (init (example_runtime [] example_loader) ''S'' ''libThrowsFailure:create'' [] (example_manager [] []))
     = Inl (Throw (Ice (FailureException
         (''ServiceManager: exception in entry point '' @ [CHR 0x60] @ ''libThrowsFailure:create''
            @ [CHR 0x27] @ '': IceBox::FailureException''))))
   \<and> fst (init (example_runtime [] example_loader) ''S'' ''libThrowsFailure:create'' [] (example_manager [] []))
     \<noteq> Inl (Throw (Ice (FailureException ''x'')))
   \<and> fst (init (example_runtime [] example_loader) ''S'' ''libInitNonIce:create'' [] (example_manager [] []))
     = Inl (Throw NonIce)"
  by (simp add: example_runtime_def example_loader_def example_manager_def init_def
      emit_def factory_failure_def split: prod.splits)


section \<open>run\<close>

lemma map_assign_set: "fst ` set (map_assign k v m) = insert k (fst ` set m)"
  by (induction k v m rule: map_assign.induct) (auto simp: image_iff)

lemma map_assign_wf: "map_wf m \<Longrightarrow> map_wf (map_assign k v m)"
proof (induction m)
  case Nil
  then show ?case by (simp add: map_wf_def)
next
  case (Cons e m)
  obtain k' v' where e: "e = (k', v')" by (cases e)
  from Cons.prems e have above: "\<forall>x \<in> fst ` set m. k' < x" and wf: "map_wf m"
    by (simp_all add: map_wf_Cons)
  show ?case
  proof (cases "k < k'")
    case True
    with above have "\<forall>x \<in> fst ` set m. k < x" by auto
    with True e above wf show ?thesis by (simp add: map_wf_Cons)
  next
    case False
    show ?thesis
    proof (cases "k = k'")
      case True
      with e above wf show ?thesis by (simp add: map_wf_Cons)
    next
      case ne: False
      with False have "k' < k" by simp
      with False ne e above Cons.IH [OF wf] show ?thesis
        by (simp add: map_wf_Cons map_assign_set)
    qed
  qed
qed

lemma map_assign_above:
  "\<forall>x \<in> fst ` set m. x < k \<Longrightarrow> map_assign k v m = m @ [(k, v)]"
  by (induction m) auto

lemma init_calls_append: "init_calls (xs @ ys) = init_calls xs @ init_calls ys"
  by (induction xs rule: init_calls.induct) auto

lemma start_calls_append: "start_calls (xs @ ys) = start_calls xs @ start_calls ys"
  by (induction xs rule: start_calls.induct) auto

lemma init_effect:
  assumes "init rt name entryPoint args m = (res, m')"
  shows "start_calls (events m') = start_calls (events m)"
    and "stop_calls (events m') = stop_calls (events m)"
    and "init_calls (events m') = init_calls (events m)
         \<or> init_calls (events m') = init_calls (events m) @ [name]"
    and "res = Inr svc \<Longrightarrow> init_calls (events m') = init_calls (events m) @ [name]"
    and "res = Inr svc \<Longrightarrow>
           m_services m' = map_assign name \<lparr>service = svc, library = entryPoint\<rparr> (m_services m)"
    and "res = Inl a \<Longrightarrow> m_services m' = m_services m"
  using assms
  by (auto simp: init_def emit_def Let_def start_calls_append stop_calls_append init_calls_append
      split: prod.splits option.splits sum.splits exn.splits ice_exception.splits)

lemma init_services_Cons:
  "init_services rt ((key, val) # rest) m =
     (if length key < length service_prefix then (Inl (Throw NonIce), m)
      else case init rt (substr_from key (length service_prefix))
                  (fst (parse_service val)) (snd (parse_service val)) m of
             (Inl a, m') \<Rightarrow> (Inl a, m')
           | (Inr svc, m') \<Rightarrow> init_services rt rest m')"
  by (simp add: Let_def split: prod.splits)

text \<open>
  When the first loop of \<open>run\<close> gets through, \<open>init\<close> was called for every name in the
  order of the enumeration, and the registry, a map ordered by key, holds exactly the
  names it held before and those names.
\<close>

lemma init_services_success:
  assumes "init_services rt dict m = (Inr (), mi)"
  shows "start_calls (events mi) = start_calls (events m)
       \<and> stop_calls (events mi) = stop_calls (events m)
       \<and> init_calls (events mi) = init_calls (events m) @ names_of dict
       \<and> (map_wf (m_services m) \<longrightarrow> map_wf (m_services mi))
       \<and> fst ` set (m_services mi) = fst ` set (m_services m) \<union> set (names_of dict)
       \<and> (sorted_wrt (<) (map fst (m_services m) @ names_of dict) \<longrightarrow>
            map fst (m_services mi) = map fst (m_services m) @ names_of dict)"
  using assms
proof (induction dict arbitrary: m)
  case Nil
  then show ?case by (auto simp: names_of_def)
next
  case (Cons e rest)
  obtain key val where e: "e = (key, val)" by (cases e)
  define name where "name = substr_from key (length service_prefix)"
  define ep where "ep = fst (parse_service val)"
  define args where "args = snd (parse_service val)"
  obtain r m' where i: "init rt name ep args m = (r, m')"
    by (cases "init rt name ep args m")
  have names: "names_of (e # rest) = name # names_of rest"
    by (simp add: names_of_def e name_def)
  note eff = init_effect [OF i]
  from Cons.prems have step:
    "(if length key < length service_prefix then (Inl (Throw NonIce), m)
      else case init rt name ep args m of
             (Inl a, m') \<Rightarrow> (Inl a, m')
           | (Inr svc, m') \<Rightarrow> init_services rt rest m') = (Inr (), mi)"
    unfolding e init_services_Cons name_def ep_def args_def .
  then have long: "\<not> length key < length service_prefix"
    by (auto split: if_splits)
  from step long i obtain svc where svc: "r = Inr svc"
    by (cases r) auto
  with step long i have rest: "init_services rt rest m' = (Inr (), mi)"
    by simp
  note IH = Cons.IH [OF rest]
  have reg: "m_services m' = map_assign name \<lparr>service = svc, library = ep\<rparr> (m_services m)"
    by (rule eff(5) [OF svc])
  have ic: "init_calls (events m') = init_calls (events m) @ [name]"
    by (rule eff(4) [OF svc])
  have keys: "fst ` set (m_services mi) = fst ` set (m_services m) \<union> set (names_of (e # rest))"
    using IH reg names by (auto simp: map_assign_set)
  have sorted_step: "map fst (m_services mi) = map fst (m_services m) @ names_of (e # rest)"
    if srt: "sorted_wrt (<) (map fst (m_services m) @ names_of (e # rest))"
  proof -
    from srt names have below: "\<forall>x \<in> fst ` set (m_services m). x < name"
      by (auto simp: sorted_wrt_append)
    then have "m_services m' = m_services m @ [(name, \<lparr>service = svc, library = ep\<rparr>)]"
      unfolding reg by (rule map_assign_above)
    then have k: "map fst (m_services m') = map fst (m_services m) @ [name]" by simp
    with srt names have "sorted_wrt (<) (map fst (m_services m') @ names_of rest)" by simp
    with IH have "map fst (m_services mi) = map fst (m_services m') @ names_of rest" by simp
    with k names show ?thesis by simp
  qed
  from IH eff(1,2) ic names reg keys sorted_step show ?case
    by (simp add: map_assign_wf)
qed










lemma run_try_start_fails:
  assumes "createObjectAdapterFromProperty rt = None" and "adapter_add rt = None"
    and "init_services rt (getPropertiesForPrefix rt service_prefix) m = (Inr (), mi)"
    and "m_services mi = pre @ (sname, info) # post"
    and "starts_return pre"
    and "on_start (service info) = Some e"
  shows "run_try rt m
     = (Inl (Throw (case e of
                      Ice (FailureException reason) \<Rightarrow> Ice (FailureException reason)
                    | Ice (OtherException exc printed) \<Rightarrow> Ice (FailureException (start_failure sname exc))
                    | NonIce \<Rightarrow> NonIce)),
        mi\<lparr>events := events mi @ map StartCall (map fst pre) @ [StartCall sname]\<rparr>)"
  using assms(1,2,3) startAll_first_failure [OF assms(5) [unfolded starts_return_def] assms(6), of sname post mi]
    assms(4)
  by (simp add: run_try_def)


lemma three_services_init:
  "init_services three_services_runtime (getPropertiesForPrefix three_services_runtime service_prefix)
     (ServiceManagerI_ctor three_services_runtime [''icebox'']) = (Inr (), three_services_initialized)"
proof -
  have dict: "getPropertiesForPrefix three_services_runtime service_prefix
      = [(''IceBox.Service.First'', ''libA:create''),
         (''IceBox.Service.Middle'', ''libStartFails:create''),
         (''IceBox.Service.Third'', ''libC:create'')]"
    by code_simp
  have p: "parse_service ''libA:create'' = (''libA:create'', [])"
    "parse_service ''libStartFails:create'' = (''libStartFails:create'', [])"
    "parse_service ''libC:create'' = (''libC:create'', [])"
    by code_simp+
  show ?thesis
    unfolding dict
    by (simp add: p service_prefix_def substr_from_def three_services_runtime_def example_runtime_def example_loader_def
        example_service_def example_parse_def three_services_initialized_def example_manager_def
        ServiceManagerI_ctor_def init_def service_configuration_def compose_serviceArgs_def
        push_matching_def emit_def Let_def)
qed




text \<open>
  C8. The claim is what \<open>stopAll\<close> and the last lines of \<open>run\<close> are written for, and the
  code misses it through the defect shown under C5. Two services are initialized and
  started, the adapter is activated and \<open>waitForShutdown\<close> returns; in the final
  \<open>stopAll\<close> the stop of \<open>Alpha\<close> throws an Ice exception, and the handler of \<open>stop\<close> builds
  the reason from the key of the entry it has erased. The behaviour is undefined from
  there, with \<open>Beta\<close> not stopped and still registered: \<open>run\<close> is not guaranteed to log the
  reason, to stop \<open>Beta\<close> or to return \<open>EXIT_SUCCESS\<close>.
\<close>

theorem run_final_stop_reads_erased_key:
  "fst (run two_services_runtime (ServiceManagerI_ctor two_services_runtime [''icebox'']))
     = Inl Undefined
   \<and> events (snd (run two_services_runtime (ServiceManagerI_ctor two_services_runtime [''icebox''])))
     = [FactoryCall ''libStopFails:create'', InitCall ''Alpha'' [] [],
        FactoryCall ''libB:create'', InitCall ''Beta'' [(''Beta.x'', ''1'')] [],
        StartCall ''Alpha'', StartCall ''Beta'',
        Stdout (''MyBundle ready'' @ [CHR 0x0A]),
        AdapterActivate, WaitForShutdown,
        StopCall ''Alpha'']
   \<and> map fst (m_services (snd (run two_services_runtime (ServiceManagerI_ctor two_services_runtime [''icebox'']))))
     = [''Beta'']"
  by code_simp

text \<open>
  C1, as amended. When every service is initialized and the start of the service at
  position \<open>k\<close> of the start order (after the services \<open>pre\<close>, before the services \<open>post\<close>)
  throws an Ice exception, \<open>run\<close> logs the reason and calls \<open>stopAll\<close> on the whole
  registry: when every stop returns, the stop of every service is called exactly once, in
  registry order (those before \<open>k\<close>, the one at \<open>k\<close> and those after it, which were never
  started), the registry is left empty and \<open>run\<close> returns \<open>EXIT_FAILURE\<close>.
\<close>

theorem start_failure_stops_every_service:
  assumes "createObjectAdapterFromProperty rt = None" and "adapter_add rt = None"
    and "map_wf (m_services m)"
    and "init_services rt (getPropertiesForPrefix rt service_prefix) m = (Inr (), mi)"
    and "m_services mi = pre @ (sname, info) # post"
    and "starts_return pre"
    and "on_start (service info) = Some (Ice ex)"
    and "stops_return (m_services mi)"
  shows "run rt m =
     (Inr EXIT_FAILURE,
      mi\<lparr>m_services := [],
         events := events mi @ map StartCall (map fst pre) @ [StartCall sname]
           @ [LogError (case ex of FailureException reason \<Rightarrow> reason
                                | OtherException exc printed \<Rightarrow> start_failure sname exc)]
           @ map StopCall (map fst pre @ [sname] @ map fst post)\<rparr>)
     \<and> distinct (map fst pre @ [sname] @ map fst post)"
proof -
  let ?reason = "case ex of FailureException reason \<Rightarrow> reason
                          | OtherException exc printed \<Rightarrow> start_failure sname exc"
  let ?m2 = "mi\<lparr>events := events mi @ map StartCall (map fst pre) @ [StartCall sname]\<rparr>"
  have wf1: "map_wf (m_services mi)"
    using init_services_success [OF assms(4)] assms(3) by simp
  have "run_try rt m = (Inl (Throw (Ice (FailureException ?reason))), ?m2)"
    using run_try_start_fails [OF assms(1,2,4,5,6,7)]
    by (simp split: ice_exception.splits)
  then have r: "run rt m = run_catch ?reason ?m2"
    by (simp add: run_def)
  have "stopAll (emit (LogError ?reason) ?m2)
      = (Inr (), (emit (LogError ?reason) ?m2)\<lparr>m_services := [],
           events := events (emit (LogError ?reason) ?m2)
             @ map StopCall (map fst (m_services (emit (LogError ?reason) ?m2)))\<rparr>)"
    by (rule stopAll_returns) (simp_all add: emit_def wf1 assms(8))
  then have "run_catch ?reason ?m2
      = (Inr EXIT_FAILURE, (emit (LogError ?reason) ?m2)\<lparr>m_services := [],
           events := events (emit (LogError ?reason) ?m2)
             @ map StopCall (map fst (m_services (emit (LogError ?reason) ?m2)))\<rparr>)"
    by (simp add: run_catch_def)
  with r have "run rt m =
     (Inr EXIT_FAILURE,
      mi\<lparr>m_services := [],
         events := events mi @ map StartCall (map fst pre) @ [StartCall sname]
           @ [LogError ?reason] @ map StopCall (map fst pre @ [sname] @ map fst post)\<rparr>)"
    by (simp add: emit_def assms(5))
  moreover have "distinct (map fst pre @ [sname] @ map fst post)"
    using map_wf_distinct [OF wf1] by (simp add: assms(5))
  ultimately show ?thesis by simp
qed

theorem start_failure_stops_every_service_witness:
  "init_services three_services_runtime (getPropertiesForPrefix three_services_runtime service_prefix)
     (ServiceManagerI_ctor three_services_runtime [''icebox'']) = (Inr (), three_services_initialized)
   \<and> stops_return (m_services three_services_initialized)
   \<and> run three_services_runtime (ServiceManagerI_ctor three_services_runtime [''icebox''])
     = (Inr EXIT_FAILURE,
        example_manager []
          [FactoryCall ''libA:create'', InitCall ''First'' [] [],
           FactoryCall ''libStartFails:create'', InitCall ''Middle'' [] [],
           FactoryCall ''libC:create'', InitCall ''Third'' [] [],
           StartCall ''First'', StartCall ''Middle'',
           LogError ''ServiceManager: exception in start for service Middle: Demo::StartError'',
           StopCall ''First'', StopCall ''Middle'', StopCall ''Third''])"
proof -
  have h1: "createObjectAdapterFromProperty three_services_runtime = None"
    and h2: "adapter_add three_services_runtime = None"
    by (simp_all add: three_services_runtime_def example_runtime_def)
  have h3: "map_wf (m_services (ServiceManagerI_ctor three_services_runtime [''icebox'']))"
    by (simp add: ServiceManagerI_ctor_def map_wf_def)
  have h5: "m_services three_services_initialized =
      [(''First'', \<lparr>service = example_service None None, library = ''libA:create''\<rparr>)]
      @ (''Middle'', \<lparr>service = example_service (Some (Ice (OtherException ''Demo::StartError'' ''start failed''))) None,
                     library = ''libStartFails:create''\<rparr>)
      # [(''Third'', \<lparr>service = example_service None None, library = ''libC:create''\<rparr>)]"
    by (simp add: three_services_initialized_def example_manager_def)
  have h6: "starts_return
      [(''First'', \<lparr>service = example_service None None, library = ''libA:create''\<rparr>)]"
    by (simp add: example_service_def starts_return_def)
  have h7: "on_start (service \<lparr>service = example_service (Some (Ice (OtherException ''Demo::StartError'' ''start failed''))) None,
                     library = ''libStartFails:create''\<rparr>) = Some (Ice (OtherException ''Demo::StartError'' ''start failed''))"
    by (simp add: example_service_def)
  have h8: "stops_return (m_services three_services_initialized)"
    by (simp add: three_services_initialized_def example_manager_def example_service_def stops_return_def)
  from start_failure_stops_every_service [OF h1 h2 h3 three_services_init h5 h6 h7 h8]
  show ?thesis
    using three_services_init h8
    by (simp add: three_services_initialized_def example_manager_def example_service_def
        start_failure_def)
qed

text \<open>
  C1 fails for the services at and after the failing one: of three services, the start
  of the second throws; the third is never started, and the stop of all three is called.
\<close>

theorem start_failure_stops_later_services_counterexample:
  "fst (run three_services_runtime (ServiceManagerI_ctor three_services_runtime [''icebox'']))
     = Inr EXIT_FAILURE
   \<and> start_calls (events (snd (run three_services_runtime (ServiceManagerI_ctor three_services_runtime [''icebox'']))))
     = [''First'', ''Middle'']
   \<and> stop_calls (events (snd (run three_services_runtime (ServiceManagerI_ctor three_services_runtime [''icebox'']))))
     = [''First'', ''Middle'', ''Third'']"
  by code_simp

end
